theory Spec2Isabelle
  imports Main "HOL-Library.Sublist" "HOL-Library.Word"
begin

section \<open>Text, bytes and paths\<close>

text \<open>
  A Python \<open>str\<close> is a sequence of Unicode code points; a code point is a natural
  number, a text a list of them. \<open>U\<close> writes an ASCII literal as such a text.
  File contents on disk are bytes. A path is the list of its components
  (\<open>Path.parts\<close> without the anchor).
\<close>

type_synonym cp = nat
type_synonym ustr = "cp list"
type_synonym byte = "8 word"
type_synonym path = "ustr list"

definition U :: "string \<Rightarrow> ustr" where
  "U s = map of_char s"

definition LF :: cp where "LF = 10"
definition CR :: cp where "CR = 13"

section \<open>Configuration\<close>

text \<open>
  The compiled patterns of \<open>COMMENT_REGEX\<close>. Two shapes occur:
  \<^item> \<open>Delimited op cl\<close> is \<open>op.*?cl\<close> compiled with \<open>re.DOTALL\<close>
    (\<open><!--.*?-->\<close> and \<open>/\*.*?\*/\<close>): the opener, then lazily any characters,
    line breaks included, up to the nearest closer;
  \<^item> \<open>LineTail\<close> is \<open>(?<!:)//.*?$\<close> compiled with \<open>re.MULTILINE\<close>: two slashes not
    preceded by a colon, then lazily any characters but the line feed, up to the end of
    the line (\<open>$\<close> holds before a line feed and at the end of the text).
\<close>

datatype pattern = Delimited ustr ustr | LineTail

definition COMMENT_REGEX :: "ustr \<Rightarrow> pattern list option" where
  "COMMENT_REGEX ext =
     (if ext = U ''.html'' then Some [Delimited (U ''<!--'') (U ''-->'')]
      else if ext = U ''.css'' then Some [Delimited (U ''/*'') (U ''*/'')]
      else if ext = U ''.js'' then Some [Delimited (U ''/*'') (U ''*/''), LineTail]
      else None)"

text \<open>
  \<open>HEADER_COMMENT_FORMAT\<close>: a template \<open>"<!-- {} -->"\<close> is kept as the text before
  and the text after its placeholder.
\<close>

definition HEADER_COMMENT_FORMAT :: "ustr \<Rightarrow> (ustr \<times> ustr) option" where
  "HEADER_COMMENT_FORMAT ext =
     (if ext = U ''.html'' then Some (U ''<!-- '', U '' -->'')
      else if ext = U ''.css'' then Some (U ''/* '', U '' */'')
      else if ext = U ''.js'' then Some (U ''/* '', U '' */'')
      else None)"

definition format_template :: "ustr \<times> ustr \<Rightarrow> ustr \<Rightarrow> ustr" where
  "format_template t arg = fst t @ arg @ snd t"

definition TARGET_EXTENSIONS :: "ustr list" where
  "TARGET_EXTENSIONS = [U ''.html'', U ''.css'', U ''.js'']"

definition SKIP_DIRS :: "ustr list" where
  "SKIP_DIRS = [U ''.git'', U ''.vscode'', U ''node_modules'', U ''__pycache__'',
                U ''venv'', U ''.venv'', U ''dist'', U ''build'', U ''assets'']"

section \<open>Pattern substitution\<close>

text \<open>
  \<open>find_closer cl s\<close>: the least offset in \<open>s\<close> at which \<open>cl\<close> starts, the end of
  the lazy \<open>.*?\<close> under \<open>re.DOTALL\<close>.
\<close>

fun find_closer :: "ustr \<Rightarrow> ustr \<Rightarrow> nat option" where
  "find_closer cl [] = (if cl = [] then Some 0 else None)"
| "find_closer cl (c # cs) =
     (if prefix cl (c # cs) then Some 0 else map_option Suc (find_closer cl cs))"

text \<open>
  \<open>match_at p prev s\<close>: the length of the match of \<open>p\<close> that starts at the current
  position, where \<open>s\<close> is the text from that position on and \<open>prev\<close> the character
  just before it in the whole text (\<open>None\<close> at its start), which the look-behind
  \<open>(?<!:)\<close> reads.
\<close>

fun match_at :: "pattern \<Rightarrow> cp option \<Rightarrow> ustr \<Rightarrow> nat option" where
  "match_at (Delimited op cl) prev s =
     (if prefix op s
      then map_option (\<lambda>j. length op + j + length cl) (find_closer cl (drop (length op) s))
      else None)"
| "match_at LineTail prev s =
     (if prev \<noteq> Some (of_char CHR '':'') \<and> prefix (U ''//'') s
      then Some (2 + length (takeWhile (\<lambda>c. c \<noteq> LF) (drop 2 s)))
      else None)"

text \<open>
  \<open>regex.sub('', text)\<close>: scan from the left; at each position try the pattern; a
  match is dropped and the scan goes on right after it, otherwise the character is kept.
  (An empty match replaces nothing and the character is kept; none of the patterns above
  has one.)
\<close>

function re_sub :: "pattern \<Rightarrow> cp option \<Rightarrow> ustr \<Rightarrow> ustr" where
  "re_sub p prev [] = []"
| "re_sub p prev (c # cs) =
     (case match_at p prev (c # cs) of
        None \<Rightarrow> c # re_sub p (Some c) cs
      | Some n \<Rightarrow>
          if n = 0 then c # re_sub p (Some c) cs
          else re_sub p (Some ((c # cs) ! (n - 1))) (drop n (c # cs)))"
  by pat_completeness auto
termination
  by (relation "measure (\<lambda>(p, prev, s). length s)") auto

definition sub :: "pattern \<Rightarrow> ustr \<Rightarrow> ustr" where
  "sub p s = re_sub p None s"

definition clean_content :: "ustr \<Rightarrow> ustr \<Rightarrow> ustr" where
  "clean_content content file_extension =
     (case COMMENT_REGEX file_extension of
        None \<Rightarrow> content
      | Some regex_list \<Rightarrow> foldl (\<lambda>cleaned regex. sub regex cleaned) content regex_list)"

section \<open>String helpers\<close>

text \<open>
  \<open>str.lstrip()\<close> and \<open>str.strip()\<close> without argument remove the characters for
  which \<open>str.isspace\<close> holds.
\<close>

definition is_space :: "cp \<Rightarrow> bool" where
  "is_space c =
     ((0x09 \<le> c \<and> c \<le> 0x0D) \<or> (0x1C \<le> c \<and> c \<le> 0x20) \<or> c = 0x85 \<or> c = 0xA0
      \<or> c = 0x1680 \<or> (0x2000 \<le> c \<and> c \<le> 0x200A) \<or> c = 0x2028 \<or> c = 0x2029
      \<or> c = 0x202F \<or> c = 0x205F \<or> c = 0x3000)"

definition lstrip :: "ustr \<Rightarrow> ustr" where
  "lstrip s = dropWhile is_space s"

definition rstrip :: "ustr \<Rightarrow> ustr" where
  "rstrip s = rev (dropWhile is_space (rev s))"

definition strip :: "ustr \<Rightarrow> ustr" where
  "strip s = rstrip (lstrip s)"

text \<open>
  \<open>str.lower()\<close> on the letters A to Z. (No other character lower-cases to a letter of
  a recognised extension, so membership in \<open>TARGET_EXTENSIONS\<close> is decided alike.)
\<close>

definition lower_cp :: "cp \<Rightarrow> cp" where
  "lower_cp c = (if 65 \<le> c \<and> c \<le> 90 then c + 32 else c)"

definition lower :: "ustr \<Rightarrow> ustr" where
  "lower s = map lower_cp s"

definition startswith :: "ustr \<Rightarrow> ustr \<Rightarrow> bool" where
  "startswith s pre = prefix pre s"

section \<open>Paths\<close>

definition name :: "path \<Rightarrow> ustr" where
  "name p = (if p = [] then [] else last p)"

text \<open>\<open>str.rfind\<close>: the last index of a character, \<open>None\<close> for Python's \<open>-1\<close>.\<close>

definition rfind :: "cp \<Rightarrow> ustr \<Rightarrow> nat option" where
  "rfind c s =
     (if c \<in> set s then Some (length s - 1 - length (takeWhile (\<lambda>d. d \<noteq> c) (rev s)))
      else None)"

text \<open>
  \<open>PurePath.suffix\<close>: with \<open>i = name.rfind('.')\<close>, the text \<open>name[i:]\<close> when
  \<open>0 < i < len(name) - 1\<close>, the empty text otherwise.
\<close>

definition suffix_of :: "path \<Rightarrow> ustr" where
  "suffix_of p =
     (case rfind (of_char CHR ''.'') (name p) of
        None \<Rightarrow> []
      | Some i \<Rightarrow> if 0 < i \<and> i + 1 < length (name p) then drop i (name p) else [])"

text \<open>
  \<open>PurePath.relative_to\<close> raises \<open>ValueError\<close> (here \<open>None\<close>) unless the path lies
  under the other one; \<open>as_posix\<close> joins the components with a slash.
\<close>

definition relative_to :: "path \<Rightarrow> path \<Rightarrow> path option" where
  "relative_to p root = (if prefix root p then Some (drop (length root) p) else None)"

fun join_slash :: "path \<Rightarrow> ustr" where
  "join_slash [] = []"
| "join_slash [x] = x"
| "join_slash (x # y # ys) = x @ of_char CHR ''/'' # join_slash (y # ys)"

definition as_posix :: "path \<Rightarrow> ustr" where
  "as_posix p = (if p = [] then U ''.'' else join_slash p)"

section \<open>Codecs\<close>

datatype encoding = UTF8 | Latin1

definition is_cont :: "byte \<Rightarrow> bool" where
  "is_cont b = (0x80 \<le> unat b \<and> unat b \<le> 0xBF)"

definition cont :: "byte \<Rightarrow> nat" where
  "cont b = unat b - 0x80"

text \<open>
  Strict UTF-8 decoding: shortest forms only, no surrogates, nothing above U+10FFFF.
  \<open>None\<close> is \<open>UnicodeDecodeError\<close>.
\<close>

fun utf8_decode :: "byte list \<Rightarrow> ustr option" where
  "utf8_decode [] = Some []"
| "utf8_decode (b # bs) =
     (if unat b < 0x80 then map_option ((#) (unat b)) (utf8_decode bs)
      else if 0xC2 \<le> unat b \<and> unat b \<le> 0xDF then
        (case bs of
           b1 # r \<Rightarrow>
             if is_cont b1
             then map_option ((#) ((unat b - 0xC0) * 64 + cont b1)) (utf8_decode r)
             else None
         | _ \<Rightarrow> None)
      else if 0xE0 \<le> unat b \<and> unat b \<le> 0xEF then
        (case bs of
           b1 # b2 # r \<Rightarrow>
             if is_cont b1 \<and> is_cont b2
                \<and> (if unat b = 0xE0 then 0xA0 \<le> unat b1 else True)
                \<and> (if unat b = 0xED then unat b1 \<le> 0x9F else True)
             then map_option ((#) ((unat b - 0xE0) * 4096 + cont b1 * 64 + cont b2))
                    (utf8_decode r)
             else None
         | _ \<Rightarrow> None)
      else if 0xF0 \<le> unat b \<and> unat b \<le> 0xF4 then
        (case bs of
           b1 # b2 # b3 # r \<Rightarrow>
             if is_cont b1 \<and> is_cont b2 \<and> is_cont b3
                \<and> (if unat b = 0xF0 then 0x90 \<le> unat b1 else True)
                \<and> (if unat b = 0xF4 then unat b1 \<le> 0x8F else True)
             then map_option
                    ((#) ((unat b - 0xF0) * 262144 + cont b1 * 4096 + cont b2 * 64 + cont b3))
                    (utf8_decode r)
             else None
         | _ \<Rightarrow> None)
      else None)"

text \<open>Latin-1 maps every byte to the code point of the same number: it never fails.\<close>

definition latin1_decode :: "byte list \<Rightarrow> ustr option" where
  "latin1_decode bs = Some (map unat bs)"

definition decode :: "encoding \<Rightarrow> byte list \<Rightarrow> ustr option" where
  "decode enc bs = (case enc of UTF8 \<Rightarrow> utf8_decode bs | Latin1 \<Rightarrow> latin1_decode bs)"

definition utf8_encode_cp :: "cp \<Rightarrow> byte list option" where
  "utf8_encode_cp c =
     (if c < 0x80 then Some [of_nat c]
      else if c < 0x800 then Some [of_nat (0xC0 + c div 64), of_nat (0x80 + c mod 64)]
      else if c < 0x10000 then
        (if 0xD800 \<le> c \<and> c \<le> 0xDFFF then None
         else Some [of_nat (0xE0 + c div 4096), of_nat (0x80 + (c div 64) mod 64),
                    of_nat (0x80 + c mod 64)])
      else if c < 0x110000 then
        Some [of_nat (0xF0 + c div 262144), of_nat (0x80 + (c div 4096) mod 64),
              of_nat (0x80 + (c div 64) mod 64), of_nat (0x80 + c mod 64)]
      else None)"

fun utf8_encode :: "ustr \<Rightarrow> byte list option" where
  "utf8_encode [] = Some []"
| "utf8_encode (c # cs) =
     (case utf8_encode_cp c of
        None \<Rightarrow> None
      | Some bs \<Rightarrow> map_option ((@) bs) (utf8_encode cs))"

definition latin1_encode :: "ustr \<Rightarrow> byte list option" where
  "latin1_encode s = (if list_all (\<lambda>c. c < 256) s then Some (map of_nat s) else None)"

definition encode :: "encoding \<Rightarrow> ustr \<Rightarrow> byte list option" where
  "encode enc s = (case enc of UTF8 \<Rightarrow> utf8_encode s | Latin1 \<Rightarrow> latin1_encode s)"

text \<open>
  Text mode with \<open>newline=None\<close>: on reading, \<open>\r\n\<close> and a lone \<open>\r\<close> become
  \<open>\n\<close>. On writing, \<open>\n\<close> becomes \<open>os.linesep\<close>, which is \<open>\n\<close> itself on POSIX,
  the platform modelled here.
\<close>

fun universal_newlines :: "ustr \<Rightarrow> ustr" where
  "universal_newlines [] = []"
| "universal_newlines [c] = (if c = CR then [LF] else [c])"
| "universal_newlines (c # d # cs) =
     (if c = CR \<and> d = LF then LF # universal_newlines cs
      else if c = CR then LF # universal_newlines (d # cs)
      else c # universal_newlines (d # cs))"

section \<open>The file system and the run's output\<close>

text \<open>
  A node is a directory, a regular file (its bytes, and whether the process may read and
  write it), something else (a socket, a dangling link), or an entry that a directory
  lists but that the process may not examine (an entry of a directory without search
  permission: \<open>stat\<close> fails with \<open>EACCES\<close>). The file system lists the nodes with
  their absolute paths, in the order in which directories enumerate them. Each path names
  a file of its own: hard links and symbolic links are not represented.
\<close>

datatype node =
  Dir | File (data: "byte list") (readable: bool) (writable: bool) | Other | NoAccess

type_synonym fs = "(path \<times> node) list"

text \<open>The exceptions that leave the functions of the program.\<close>

datatype exn = ValueError | PermissionError

text \<open>
  \<open>Path.is_dir()\<close> and \<open>Path.is_file()\<close> answer \<open>False\<close> for a path that does not
  exist and raise \<open>PermissionError\<close> for one that may not be examined.
\<close>

definition is_dir :: "fs \<Rightarrow> path \<Rightarrow> exn + bool" where
  "is_dir f p =
     (case map_of f p of
        Some NoAccess \<Rightarrow> Inl PermissionError
      | Some Dir \<Rightarrow> Inr True
      | _ \<Rightarrow> Inr False)"

definition is_file :: "fs \<Rightarrow> path \<Rightarrow> exn + bool" where
  "is_file f p =
     (case map_of f p of
        Some NoAccess \<Rightarrow> Inl PermissionError
      | Some (File d r w) \<Rightarrow> Inr True
      | _ \<Rightarrow> Inr False)"

definition update_node :: "fs \<Rightarrow> path \<Rightarrow> node \<Rightarrow> fs" where
  "update_node f p n = map (\<lambda>(q, m). if q = p then (q, n) else (q, m)) f"

text \<open>\<open>root.rglob('*')\<close>: every path strictly below the root, files and directories.\<close>

definition rglob :: "fs \<Rightarrow> path \<Rightarrow> path list" where
  "rglob f root = filter (strict_prefix root) (map fst f)"

text \<open>
  What the run prints, by stream, and (as a trace, not printed) each \<open>read_text\<close> and
  \<open>write_text\<close> call it makes. The messages are kept by kind with their arguments, not
  as formatted and coloured text.
\<close>

datatype msg =
    ErrorReading path
  | CouldNotDecode path
  | NoHeaderFormat ustr
  | RelativePathError path path
  | ErrorWriting path
  | SkippingHeader ustr
  | RemovedComments ustr
  | UpdatedHeader ustr
  | CriticalError ustr
  | Banner path
  | Finished nat nat
  | ErrorsOccurred nat
  | DirectoryNotFound path
  | Traceback exn

datatype event = Stdout msg | Stderr msg | ReadText path encoding | WriteText path encoding

record world =
  files :: fs
  log :: "event list"

definition emit :: "event \<Rightarrow> world \<Rightarrow> world" where
  "emit e w = w\<lparr>log := log w @ [e]\<rparr>"

datatype read_error = UnicodeDecodeError | OSError

text \<open>
  \<open>Path.read_text(encoding)\<close>: \<open>OSError\<close> when the path is not a readable regular
  file, \<open>UnicodeDecodeError\<close> when its bytes do not decode.
\<close>

definition read_text :: "fs \<Rightarrow> path \<Rightarrow> encoding \<Rightarrow> read_error + ustr" where
  "read_text f p enc =
     (case map_of f p of
        Some (File d r w) \<Rightarrow>
          if r then
            (case decode enc d of
               Some s \<Rightarrow> Inr (universal_newlines s)
             | None \<Rightarrow> Inl UnicodeDecodeError)
          else Inl OSError
      | _ \<Rightarrow> Inl OSError)"

text \<open>
  \<open>Path.write_text(content, encoding)\<close> opens the file for writing, which empties it,
  then encodes and writes: a text that does not encode leaves the file empty. The result
  is whether it raised nothing. \<open>process_file\<close> writes only to a path it has just read
  as a regular file; for any other path the model reports failure and changes nothing.
\<close>

definition write_text :: "fs \<Rightarrow> path \<Rightarrow> ustr \<Rightarrow> encoding \<Rightarrow> bool \<times> fs" where
  "write_text f p content enc =
     (case map_of f p of
        Some (File d r w) \<Rightarrow>
          if w then
            (case encode enc content of
               Some bs \<Rightarrow> (True, update_node f p (File bs r w))
             | None \<Rightarrow> (False, update_node f p (File [] r w)))
          else (False, f)
      | _ \<Rightarrow> (False, f))"

section \<open>Utility functions\<close>

definition encodings_to_try :: "encoding list" where
  "encodings_to_try = [UTF8, Latin1]"

text \<open>
  The loop of \<open>read_file_content\<close> over the encodings still to try: the first that
  decodes wins, \<open>UnicodeDecodeError\<close> goes on to the next, any other exception reports
  and gives up; when the list is used up the function reports that nothing decoded.
\<close>

fun read_loop :: "path \<Rightarrow> encoding list \<Rightarrow> world \<Rightarrow> (ustr \<times> encoding) option \<times> world" where
  "read_loop file_path [] w = (None, emit (Stderr (CouldNotDecode file_path)) w)"
| "read_loop file_path (enc # encs) w =
     (case read_text (files w) file_path enc of
        Inr content \<Rightarrow> (Some (content, enc), emit (ReadText file_path enc) w)
      | Inl UnicodeDecodeError \<Rightarrow> read_loop file_path encs (emit (ReadText file_path enc) w)
      | Inl OSError \<Rightarrow>
          (None, emit (Stderr (ErrorReading file_path)) (emit (ReadText file_path enc) w)))"

definition read_file_content :: "path \<Rightarrow> world \<Rightarrow> (ustr \<times> encoding) option \<times> world" where
  "read_file_content file_path w = read_loop file_path encodings_to_try w"

text \<open>
  \<open>create_header\<close>. Its last handler (\<open>except Exception\<close>) has nothing to catch: of the
  calls in the \<open>try\<close> block only \<open>relative_to\<close> raises, and it raises \<open>ValueError\<close>.
\<close>

definition create_header :: "path \<Rightarrow> path \<Rightarrow> ustr \<Rightarrow> world \<Rightarrow> ustr option \<times> world" where
  "create_header file_path root_dir file_extension w =
     (case relative_to file_path root_dir of
        Some rel \<Rightarrow>
          (case HEADER_COMMENT_FORMAT file_extension of
             Some formatter \<Rightarrow> (Some (format_template formatter (as_posix rel)), w)
           | None \<Rightarrow> (None, emit (Stderr (NoHeaderFormat file_extension)) w))
      | None \<Rightarrow>
          (case HEADER_COMMENT_FORMAT file_extension of
             Some formatter \<Rightarrow>
               (Some (format_template formatter (name file_path @ U '' (relative path error)'')),
                emit (Stderr (RelativePathError file_path root_dir)) w)
           | None \<Rightarrow> (None, emit (Stderr (RelativePathError file_path root_dir)) w)))"

definition write_file_content :: "path \<Rightarrow> ustr \<Rightarrow> encoding \<Rightarrow> world \<Rightarrow> bool \<times> world" where
  "write_file_content file_path content enc w =
     (case write_text (files w) file_path content enc of
        (True, f) \<Rightarrow> (True, emit (WriteText file_path enc) (w\<lparr>files := f\<rparr>))
      | (False, f) \<Rightarrow>
          (False, emit (Stderr (ErrorWriting file_path))
                    (emit (WriteText file_path enc) (w\<lparr>files := f\<rparr>))))"

section \<open>Core logic\<close>

text \<open>
  Step 5 of \<open>process_file\<close>, shared by its two ways of building the final content:
  write back if changed, then report. The \<open>relative_to\<close> of the report raises
  \<open>ValueError\<close> for a path outside the root, after the write.
\<close>

definition write_back ::
  "path \<Rightarrow> path \<Rightarrow> ustr \<Rightarrow> encoding \<Rightarrow> ustr \<Rightarrow> ustr \<Rightarrow> world \<Rightarrow> (exn + bool) \<times> world" where
  "write_back file_path root_dir original_content enc cleaned_content_no_header final_content w =
     (if final_content \<noteq> original_content then
        (case write_file_content file_path final_content enc w of
           (True, w') \<Rightarrow>
             (case relative_to file_path root_dir of
                None \<Rightarrow> (Inl ValueError, w')
              | Some rel \<Rightarrow>
                  (Inr True,
                   emit (Stdout (if strip cleaned_content_no_header \<noteq> strip original_content
                                 then RemovedComments (as_posix rel)
                                 else UpdatedHeader (as_posix rel))) w'))
         | (False, w') \<Rightarrow> (Inr False, w'))
      else (Inr False, w))"

definition process_file :: "path \<Rightarrow> path \<Rightarrow> world \<Rightarrow> (exn + bool) \<times> world" where
  "process_file file_path root_dir w =
     (let file_extension = lower (suffix_of file_path) in
      if file_extension \<notin> set TARGET_EXTENSIONS then (Inr False, w)
      else
        (case read_file_content file_path w of
           (None, w1) \<Rightarrow> (Inr False, w1)
         | (Some (original_content, enc), w1) \<Rightarrow>
             (let cleaned_content_no_header = clean_content original_content file_extension in
              case create_header file_path root_dir file_extension w1 of
                (None, w2) \<Rightarrow>
                  (case relative_to file_path root_dir of
                     None \<Rightarrow> (Inl ValueError, w2)
                   | Some rel \<Rightarrow>
                       write_back file_path root_dir original_content enc
                         cleaned_content_no_header cleaned_content_no_header
                         (emit (Stderr (SkippingHeader (as_posix rel))) w2))
              | (Some header_comment, w2) \<Rightarrow>
                  write_back file_path root_dir original_content enc
                    cleaned_content_no_header
                    (header_comment @ LF # lstrip cleaned_content_no_header) w2)))"

type_synonym counts = "nat \<times> nat \<times> nat"

definition part_of_skipped_dir :: "path \<Rightarrow> bool" where
  "part_of_skipped_dir rel =
     list_ex (\<lambda>part. part \<in> set SKIP_DIRS \<or> startswith part (U ''.'')) (butlast rel)"

text \<open>
  The body of the loop of \<open>process_directory\<close> for one item, on the counters
  \<open>(processed_count, changed_count, error_count)\<close>. Only the call of
  \<open>process_file\<close> is inside the \<open>try\<close>: an exception of \<open>item.is_dir()\<close>, of the
  \<open>relative_to\<close> of the skip test or of \<open>item.is_file()\<close> ends the loop.
\<close>

definition visit :: "path \<Rightarrow> path \<Rightarrow> counts \<Rightarrow> world \<Rightarrow> (exn + counts) \<times> world" where
  "visit root_dir item c w =
     (case c of (processed_count, changed_count, error_count) \<Rightarrow>
      case is_dir (files w) item of
        Inl e \<Rightarrow> (Inl e, w)
      | Inr True \<Rightarrow> (Inr c, w)
      | Inr False \<Rightarrow>
        (case relative_to item root_dir of
           None \<Rightarrow> (Inl ValueError, w)
         | Some rel \<Rightarrow>
             if part_of_skipped_dir rel then (Inr c, w)
             else
               (case is_file (files w) item of
                  Inl e \<Rightarrow> (Inl e, w)
                | Inr regular \<Rightarrow>
                    if regular \<and> lower (suffix_of item) \<in> set TARGET_EXTENSIONS then
                      (case process_file item root_dir w of
                         (Inr was_modified, w') \<Rightarrow>
                           (Inr (processed_count + 1,
                                 (if was_modified then changed_count + 1 else changed_count),
                                 error_count), w')
                       | (Inl e, w') \<Rightarrow>
                           (Inr (processed_count + 1, changed_count, error_count + 1),
                            emit (Stderr (CriticalError (as_posix rel))) w'))
                    else (Inr c, w))))"

fun walk :: "path \<Rightarrow> path list \<Rightarrow> counts \<Rightarrow> world \<Rightarrow> (exn + counts) \<times> world" where
  "walk root_dir [] c w = (Inr c, w)"
| "walk root_dir (item # items) c w =
     (case visit root_dir item c w of
        (Inl e, w') \<Rightarrow> (Inl e, w')
      | (Inr c', w') \<Rightarrow> walk root_dir items c' w')"

definition process_directory :: "path \<Rightarrow> world \<Rightarrow> (exn + counts) \<times> world" where
  "process_directory root_dir w =
     (case walk root_dir (rglob (files w) root_dir) (0, 0, 0) (emit (Stdout (Banner root_dir)) w) of
        (Inl e, w') \<Rightarrow> (Inl e, w')
      | (Inr (processed_count, changed_count, error_count), w') \<Rightarrow>
          (Inr (processed_count, changed_count, error_count),
           (if error_count > 0 then emit (Stdout (ErrorsOccurred error_count)) else id)
             (emit (Stdout (Finished processed_count changed_count)) w')))"

section \<open>Main execution\<close>

text \<open>
  \<open>main\<close> after argument parsing, on the directory given with \<open>-d\<close>; the result is
  the exit status. Paths are absolute here, so \<open>resolve()\<close> changes nothing. The flag
  \<open>-y\<close> is parsed and never read. \<open>main\<close> catches nothing: an exception that leaves
  it ends the process with a traceback on stderr and status 1.
\<close>

definition main :: "path \<Rightarrow> world \<Rightarrow> nat \<times> world" where
  "main target_directory w =
     (case is_dir (files w) target_directory of
        Inl e \<Rightarrow> (1, emit (Stderr (Traceback e)) w)
      | Inr False \<Rightarrow> (1, emit (Stderr (DirectoryNotFound target_directory)) w)
      | Inr True \<Rightarrow>
          (case process_directory target_directory w of
             (Inr c, w') \<Rightarrow> (0, w')
           | (Inl e, w') \<Rightarrow> (1, emit (Stderr (Traceback e)) w')))"

section \<open>Notions used in the statements\<close>

subsection \<open>Characters and patterns\<close>



definition dot :: cp where
  "dot = of_char CHR ''.''"



text \<open>
  \<open>no_match p s\<close>: the pattern matches at no position of the text \<open>s\<close>, each position
  seen with the character before it.
\<close>

definition no_match :: "pattern \<Rightarrow> ustr \<Rightarrow> bool" where
  "no_match p s =
     list_all (\<lambda>i. match_at p (if i = 0 then None else Some (s ! (i - 1))) (drop i s) = None)
       [0..<length s]"

text \<open>
  The scan of \<open>re_sub\<close> once more, returning for each position of the text whether the
  scan keeps it; \<open>kept\<close> reads a text through such a list. Lemma \<open>re_sub_kept\<close> below
  says that this is the same scan.
\<close>

function re_sub_mask :: "pattern \<Rightarrow> cp option \<Rightarrow> ustr \<Rightarrow> bool list" where
  "re_sub_mask p prev [] = []"
| "re_sub_mask p prev (c # cs) =
     (case match_at p prev (c # cs) of
        None \<Rightarrow> True # re_sub_mask p (Some c) cs
      | Some n \<Rightarrow>
          if n = 0 then True # re_sub_mask p (Some c) cs
          else replicate n False @ re_sub_mask p (Some ((c # cs) ! (n - 1))) (drop n (c # cs)))"
  by pat_completeness auto
termination
  by (relation "measure (\<lambda>(p, prev, s). length s)") auto

definition kept :: "ustr \<Rightarrow> bool list \<Rightarrow> ustr" where
  "kept s keep = map fst (filter snd (zip s keep))"

text \<open>Line 1 of a text: what stands before its first line feed.\<close>

definition first_line :: "ustr \<Rightarrow> ustr" where
  "first_line s = takeWhile (\<lambda>c. c \<noteq> LF) s"

subsection \<open>Reading the log\<close>

text \<open>
  The path an event accesses, if it is a \<open>read_text\<close> or \<open>write_text\<close> call; and the
  path of a first read attempt, by which a call of \<open>process_file\<close> on a recognized
  extension is known: it makes exactly one.
\<close>

fun accessed :: "event \<Rightarrow> path list" where
  "accessed (ReadText p enc) = [p]"
| "accessed (WriteText p enc) = [p]"
| "accessed e = []"

fun utf8_reads :: "event \<Rightarrow> path list" where
  "utf8_reads (ReadText p UTF8) = [p]"
| "utf8_reads e = []"

definition accessed_paths :: "event list \<Rightarrow> path list" where
  "accessed_paths evs = concat (map accessed evs)"

definition transform_calls :: "event list \<Rightarrow> path list" where
  "transform_calls evs = concat (map utf8_reads evs)"

subsection \<open>Selection\<close>

text \<open>
  The walker's test on the path relative to the root, in words of the names: some
  component before the last is a skip name or begins with a dot. And the test on the
  extension.
\<close>

definition has_skipped_ancestor :: "path \<Rightarrow> bool" where
  "has_skipped_ancestor rel =
     (\<exists>d \<in> set (butlast rel). d \<in> set SKIP_DIRS \<or> (d \<noteq> [] \<and> hd d = dot))"

definition recognized :: "path \<Rightarrow> bool" where
  "recognized item = (lower (suffix_of item) \<in> set TARGET_EXTENSIONS)"

text \<open>The condition under which the loop of \<open>process_directory\<close> calls \<open>process_file\<close>.\<close>

definition selected :: "fs \<Rightarrow> path \<Rightarrow> path \<Rightarrow> bool" where
  "selected f root_dir item =
     (is_dir f item = Inr False
      \<and> (case relative_to item root_dir of None \<Rightarrow> False | Some rel \<Rightarrow> \<not> part_of_skipped_dir rel)
      \<and> is_file f item = Inr True \<and> lower (suffix_of item) \<in> set TARGET_EXTENSIONS)"

text \<open>An item that \<open>is_dir\<close> and \<open>is_file\<close> can examine.\<close>

definition examinable :: "fs \<Rightarrow> path \<Rightarrow> bool" where
  "examinable f p = (map_of f p \<noteq> Some NoAccess)"

subsection \<open>Invariants of the traversal\<close>

text \<open>
  \<open>step_ok p R w w'\<close>: from \<open>w\<close> to \<open>w'\<close> the tree keeps its paths and the kinds of
  its nodes, only the node at \<open>p\<close> may differ, the log grows by events that access
  \<open>p\<close> only, and the first read attempts among them are \<open>R\<close>. \<open>run_ok\<close> is the
  same for a list of items, of which the selected ones may change.
\<close>

definition step_ok :: "path \<Rightarrow> path list \<Rightarrow> world \<Rightarrow> world \<Rightarrow> bool" where
  "step_ok p R w w' =
     (map fst (files w') = map fst (files w)
      \<and> (\<forall>q. q \<noteq> p \<longrightarrow> map_of (files w') q = map_of (files w) q)
      \<and> (\<forall>q. is_dir (files w') q = is_dir (files w) q)
      \<and> (\<forall>q. is_file (files w') q = is_file (files w) q)
      \<and> (\<exists>evs. log w' = log w @ evs \<and> set (concat (map accessed evs)) \<subseteq> {p}
            \<and> concat (map utf8_reads evs) = R))"

definition run_ok :: "path \<Rightarrow> path list \<Rightarrow> world \<Rightarrow> world \<Rightarrow> bool" where
  "run_ok root items w w' =
     (map fst (files w') = map fst (files w)
      \<and> (\<forall>q. \<not> (q \<in> set items \<and> selected (files w) root q)
             \<longrightarrow> map_of (files w') q = map_of (files w) q)
      \<and> (\<forall>q. is_dir (files w') q = is_dir (files w) q)
      \<and> (\<forall>q. is_file (files w') q = is_file (files w) q)
      \<and> (\<exists>evs. log w' = log w @ evs
            \<and> set (concat (map accessed evs)) \<subseteq> {q \<in> set items. selected (files w) root q}
            \<and> concat (map utf8_reads evs) = filter (selected (files w) root) items))"

subsection \<open>Example trees\<close>

text \<open>\<open>B\<close> writes an ASCII literal as bytes.\<close>

definition B :: "string \<Rightarrow> byte list" where
  "B s = map of_char s"

definition example_root :: path where
  "example_root = [U ''r'']"

text \<open>
  A tree with a script file holding a line comment, a file below \<open>node_modules\<close>, a
  script file whose own name begins with a dot, and a markup file with an upper-case
  extension.
\<close>

definition example_world :: world where
  "example_world = \<lparr>files =
     [([U ''r''], Dir),
      ([U ''r'', U ''a.js''], File (B ''foo(); // comment'') True True),
      ([U ''r'', U ''node_modules''], Dir),
      ([U ''r'', U ''node_modules'', U ''lib.js''], File (B ''x'') True True),
      ([U ''r'', U ''.hidden.js''], File (B ''y'') True True),
      ([U ''r'', U ''PAGE.HTML''], File (B ''<p>'') True True)],
     log = []\<rparr>"

text \<open>A tree with one style file that the process may not read.\<close>

definition locked_world :: world where
  "locked_world = \<lparr>files =
     [([U ''r''], Dir),
      ([U ''r'', U ''locked.css''], File (B ''a{}'') False True)],
     log = []\<rparr>"

text \<open>A tree with one script file whose name contains a line feed.\<close>

definition newline_world :: world where
  "newline_world = \<lparr>files =
     [([U ''r''], Dir),
      ([U ''r'', U ''a\<newline>b.js''], File (B ''x'') True True)],
     log = []\<rparr>"

text \<open>
  A tree with a directory that can be listed but not searched, so that the file in it
  cannot be examined, enumerated before a script file.
\<close>

definition denied_world :: world where
  "denied_world = \<lparr>files =
     [([U ''r''], Dir),
      ([U ''r'', U ''d''], Dir),
      ([U ''r'', U ''d'', U ''f.txt''], NoAccess),
      ([U ''r'', U ''a.js''], File (B ''x'') True True)],
     log = []\<rparr>"

text \<open>
  Three trees whose one file already starts with its header: as the transform leaves it,
  with a blank line after the header, and below a directory whose name ends with a star.
\<close>

definition settled_world :: world where
  "settled_world = \<lparr>files =
     [([U ''r''], Dir),
      ([U ''r'', U ''a.js''], File (B ''/* a.js */\<newline>foo();'') True True)],
     log = []\<rparr>"



section \<open>Properties of the pattern substitution\<close>

lemma find_closer_bound: "find_closer cl s = Some j \<Longrightarrow> j + length cl \<le> length s"
proof (induction s arbitrary: j)
  case Nil
  then show ?case by (simp split: if_splits)
next
  case (Cons c cs)
  show ?case
  proof (cases "prefix cl (c # cs)")
    case True
    with Cons.prems show ?thesis using prefix_length_le by force
  next
    case False
    with Cons.prems obtain k where "find_closer cl cs = Some k" "j = Suc k" by auto
    with Cons.IH show ?thesis by fastforce
  qed
qed

lemma match_at_bound: "match_at p prev s = Some n \<Longrightarrow> n \<le> length s"
proof (cases p)
  case (Delimited op cl)
  assume m: "match_at p prev s = Some n"
  with Delimited obtain j where pre: "prefix op s"
    and j: "find_closer cl (drop (length op) s) = Some j" and n: "n = length op + j + length cl"
    by (auto split: if_splits)
  from find_closer_bound[OF j] have "j + length cl \<le> length s - length op" by simp
  moreover from pre have "length op \<le> length s" by (rule prefix_length_le)
  ultimately show ?thesis using n by simp
next
  case LineTail
  assume m: "match_at p prev s = Some n"
  with LineTail have n: "n = 2 + length (takeWhile (\<lambda>c. c \<noteq> LF) (drop 2 s))"
    and pre: "prefix (U ''//'') s"
    by (auto split: if_splits)
  from pre have "2 \<le> length s" by (auto dest: prefix_length_le simp: U_def)
  moreover have "length (takeWhile (\<lambda>c. c \<noteq> LF) (drop 2 s)) \<le> length s - 2"
    using length_takeWhile_le[of "\<lambda>c. c \<noteq> LF" "drop 2 s"] by simp
  ultimately show ?thesis using n by simp
qed







section \<open>Script kind: line comments and URLs\<close>



lemma files_emit [simp]: "files (emit e w) = files w"
  by (simp add: emit_def)

lemma log_emit [simp]: "log (emit e w) = log w @ [e]"
  by (simp add: emit_def)

lemma latin1_total: "decode Latin1 bs = Some (map unat bs)"
  by (simp add: decode_def latin1_decode_def)

lemma read_text_decode_error:
  assumes "read_text f p UTF8 = Inl UnicodeDecodeError"
  shows "\<exists>c. read_text f p Latin1 = Inr c"
  using assms
  by (auto simp: read_text_def latin1_total split: option.splits node.splits if_splits)

lemma read_text_oserror:
  "read_text f p enc = Inl OSError \<Longrightarrow> read_text f p enc' = Inl OSError"
  by (auto simp: read_text_def split: option.splits node.splits if_splits)

lemma read_file_content_cases:
  "read_file_content p w =
     (case read_text (files w) p UTF8 of
        Inr c \<Rightarrow> (Some (c, UTF8), emit (ReadText p UTF8) w)
      | Inl OSError \<Rightarrow> (None, emit (Stderr (ErrorReading p)) (emit (ReadText p UTF8) w))
      | Inl UnicodeDecodeError \<Rightarrow>
          (case read_text (files w) p Latin1 of
             Inr c \<Rightarrow> (Some (c, Latin1), emit (ReadText p Latin1) (emit (ReadText p UTF8) w))
           | Inl e \<Rightarrow> (None, emit (Stderr (ErrorReading p)) (emit (ReadText p Latin1) (emit (ReadText p UTF8) w)))))"
  by (auto simp: read_file_content_def encodings_to_try_def dest: read_text_decode_error
      split: sum.splits read_error.splits)

lemma read_file_content_None:
  assumes "fst (read_file_content p w) = None"
  shows "read_file_content p w = (None, emit (Stderr (ErrorReading p)) (emit (ReadText p UTF8) w))"
    and "read_text (files w) p UTF8 = Inl OSError"
  using assms
  by (auto simp: read_file_content_cases dest: read_text_decode_error
      split: sum.splits read_error.splits)


lemma map_fst_update_node [simp]: "map fst (update_node f p n) = map fst f"
  by (induction f) (auto simp: update_node_def)

lemma map_of_update_node:
  "map_of (update_node f p n) q =
     (if q = p then (case map_of f p of None \<Rightarrow> None | Some m \<Rightarrow> Some n) else map_of f q)"
  by (induction f) (auto simp: update_node_def)

lemma write_text_frame:
  assumes "write_text f p c enc = (b, f')"
  shows "map fst f' = map fst f"
    and "q \<noteq> p \<Longrightarrow> map_of f' q = map_of f q"
    and "is_dir f' q = is_dir f q"
    and "is_file f' q = is_file f q"
  using assms
  by (auto simp: write_text_def is_dir_def is_file_def map_of_update_node
      split: option.splits node.splits if_splits)

lemma write_file_content_frame:
  assumes "write_file_content p c enc w = (b, w')"
  shows "map fst (files w') = map fst (files w)"
    and "q \<noteq> p \<Longrightarrow> map_of (files w') q = map_of (files w) q"
    and "is_dir (files w') q = is_dir (files w) q"
    and "is_file (files w') q = is_file (files w) q"
    and "log w' = log w @ (if b then [WriteText p enc] else [WriteText p enc, Stderr (ErrorWriting p)])"
proof -
  obtain b0 f0 where wt: "write_text (files w) p c enc = (b0, f0)" by force
  with assms have w': "w' = (if b0 then emit (WriteText p enc) (w\<lparr>files := f0\<rparr>)
       else emit (Stderr (ErrorWriting p)) (emit (WriteText p enc) (w\<lparr>files := f0\<rparr>)))" and b: "b = b0"
    by (auto simp: write_file_content_def split: if_splits bool.splits)
  from w' have fw: "files w' = f0" by simp
  show "map fst (files w') = map fst (files w)" using write_text_frame(1)[OF wt] fw by simp
  show "q \<noteq> p \<Longrightarrow> map_of (files w') q = map_of (files w) q" using write_text_frame(2)[OF wt] fw by simp
  show "is_dir (files w') q = is_dir (files w) q" using write_text_frame(3)[OF wt] fw by simp
  show "is_file (files w') q = is_file (files w) q" using write_text_frame(4)[OF wt] fw by simp
  show "log w' = log w @ (if b then [WriteText p enc] else [WriteText p enc, Stderr (ErrorWriting p)])"
    using w' b by simp
qed

lemma step_ok_refl: "step_ok p [] w w"
  by (simp add: step_ok_def)

lemma step_ok_emit_std:
  "accessed e = [] \<Longrightarrow> utf8_reads e = [] \<Longrightarrow> step_ok p R w w' \<Longrightarrow> step_ok p R w (emit e w')"
  by (auto simp: step_ok_def)

lemma step_ok_emit_first:
  "accessed e = [] \<Longrightarrow> utf8_reads e = [] \<Longrightarrow> step_ok p R (emit e w) w' \<Longrightarrow> step_ok p R w w'"
  by (auto simp: step_ok_def)

lemma step_ok_trans: "step_ok p R1 w w1 \<Longrightarrow> step_ok p R2 w1 w2 \<Longrightarrow> step_ok p (R1 @ R2) w w2"
  unfolding step_ok_def
  apply (elim conjE exE)
  apply (intro conjI)
      apply simp
     apply simp
    apply simp
   apply simp
  subgoal for evs evsa
    by (rule exI[of _ "evs @ evsa"]) auto
  done

lemma write_file_content_step: 
  assumes "write_file_content p c enc w = (b, w')" shows "step_ok p [] w w'"
  unfolding step_ok_def
  using write_file_content_frame[OF assms] by auto

lemma write_back_step:
  assumes "write_back p root orig enc cleaned final w = (r, w')"
  shows "step_ok p [] w w'" and "r = Inl e \<Longrightarrow> relative_to p root = None"
proof -
  show "step_ok p [] w w'"
  proof (cases "final \<noteq> orig")
    case False
    with assms show ?thesis by (simp add: write_back_def step_ok_refl)
  next
    case True
    obtain b w1 where wf: "write_file_content p final enc w = (b, w1)" by force
    note s1 = write_file_content_step[OF wf]
    show ?thesis
    proof (cases b)
      case False
      with True wf assms s1 show ?thesis by (simp add: write_back_def)
    next
      case b: True
      show ?thesis
      proof (cases "relative_to p root")
        case None
        with True b wf assms s1 show ?thesis by (simp add: write_back_def)
      next
        case (Some rel)
        with True b wf assms have "w' = emit (Stdout (if strip cleaned \<noteq> strip orig
                                 then RemovedComments (as_posix rel)
                                 else UpdatedHeader (as_posix rel))) w1"
          by (simp add: write_back_def)
        with s1 show ?thesis by (simp add: step_ok_emit_std)
      qed
    qed
  qed
  show "r = Inl e \<Longrightarrow> relative_to p root = None"
    using assms by (auto simp: write_back_def split: if_splits prod.splits bool.splits option.splits)
qed

lemma read_file_content_step:
  assumes "read_file_content p w = (r, w1)"
  shows "step_ok p [p] w w1"
  using assms unfolding step_ok_def
  by (auto simp: read_file_content_cases split: sum.splits read_error.splits)

lemma create_header_step:
  assumes "create_header p root ext w = (h, w1)"
  shows "step_ok p [] w w1"
  using assms unfolding step_ok_def
  by (auto simp: create_header_def split: option.splits)

lemma process_file_step:
  assumes "process_file p root w = (r, w')"
  shows "step_ok p (if lower (suffix_of p) \<in> set TARGET_EXTENSIONS then [p] else []) w w'"
    and "r = Inl e \<Longrightarrow> relative_to p root = None"
proof -
  let ?ext = "lower (suffix_of p)"
  show "step_ok p (if ?ext \<in> set TARGET_EXTENSIONS then [p] else []) w w'"
  proof (cases "?ext \<in> set TARGET_EXTENSIONS")
    case False
    with assms show ?thesis by (simp add: process_file_def step_ok_refl)
  next
    case True
    obtain rc w1 where rd: "read_file_content p w = (rc, w1)" by force
    note s1 = read_file_content_step[OF rd]
    show ?thesis
    proof (cases rc)
      case None
      with True rd assms s1 show ?thesis by (simp add: process_file_def)
    next
      case (Some ce)
      obtain c enc where ce: "ce = (c, enc)" by force
      obtain h w2 where ch: "create_header p root ?ext w1 = (h, w2)" by force
      note s2 = step_ok_trans[OF s1 create_header_step[OF ch]]
      show ?thesis
      proof (cases h)
        case (Some header)
        with True rd \<open>rc = Some ce\<close> ce ch assms
        have "write_back p root c enc (clean_content c ?ext) (header @ LF # lstrip (clean_content c ?ext)) w2 = (r, w')"
          by (simp add: process_file_def Let_def)
        from step_ok_trans[OF s2 write_back_step(1)[OF this]] True show ?thesis by simp
      next
        case None
        show ?thesis
        proof (cases "relative_to p root")
          case rn: None
          with None True rd \<open>rc = Some ce\<close> ce ch assms s2 show ?thesis
            by (simp add: process_file_def Let_def)
        next
          case (Some rel)
          with None True rd \<open>rc = Some ce\<close> ce ch assms
          have wb: "write_back p root c enc (clean_content c ?ext) (clean_content c ?ext)
                  (emit (Stderr (SkippingHeader (as_posix rel))) w2) = (r, w')"
            by (simp add: process_file_def Let_def)
          have "step_ok p [p] w (emit (Stderr (SkippingHeader (as_posix rel))) w2)"
            using s2 by (simp add: step_ok_emit_std)
          from step_ok_trans[OF this write_back_step(1)[OF wb]] True show ?thesis by simp
        qed
      qed
    qed
  qed
  show "r = Inl e \<Longrightarrow> relative_to p root = None"
    using assms
    by (auto simp: process_file_def Let_def dest: write_back_step(2)
        split: if_splits prod.splits option.splits)
qed

lemma process_file_unfold:
  assumes "lower (suffix_of p) = ext" "ext \<in> set TARGET_EXTENSIONS"
    "read_file_content p w = (Some (content, enc), w1)"
    "relative_to p root = Some rel" "HEADER_COMMENT_FORMAT ext = Some fmt"
  shows "process_file p root w
     = write_back p root content enc (clean_content content ext)
         (format_template fmt (as_posix rel) @ LF # lstrip (clean_content content ext)) w1"
  using assms by (simp add: process_file_def create_header_def Let_def)

lemma hidden_read:
  "read_file_content [U ''r'', U ''.hidden.js''] example_world
    = (Some (U ''y'', UTF8), emit (ReadText [U ''r'', U ''.hidden.js''] UTF8) example_world)"
proof -
  have "read_text (files example_world) [U ''r'', U ''.hidden.js''] UTF8 = Inr (U ''y'')"
    by code_simp
  then show ?thesis by (simp add: read_file_content_cases)
qed

lemma hidden_pieces:
  "lower (suffix_of [U ''r'', U ''.hidden.js'']) = U ''.js''"
  "U ''.js'' \<in> set TARGET_EXTENSIONS"
  "relative_to [U ''r'', U ''.hidden.js''] example_root = Some [U ''.hidden.js'']"
  "HEADER_COMMENT_FORMAT (U ''.js'') = Some (U ''/* '', U '' */'')"
  "format_template (U ''/* '', U '' */'') (as_posix [U ''.hidden.js'']) @ LF # lstrip (clean_content (U ''y'') (U ''.js''))
     = U ''/* .hidden.js */'' @ LF # U ''y''"
  "fst (write_text (files example_world) [U ''r'', U ''.hidden.js''] (U ''/* .hidden.js */'' @ LF # U ''y'') UTF8)"
proof -
  show "lower (suffix_of [U ''r'', U ''.hidden.js'']) = U ''.js''" by code_simp
  show "U ''.js'' \<in> set TARGET_EXTENSIONS" by code_simp
  show "relative_to [U ''r'', U ''.hidden.js''] example_root = Some [U ''.hidden.js'']" by code_simp
  show "HEADER_COMMENT_FORMAT (U ''.js'') = Some (U ''/* '', U '' */'')" by code_simp
  show "format_template (U ''/* '', U '' */'') (as_posix [U ''.hidden.js'']) @ LF # lstrip (clean_content (U ''y'') (U ''.js''))
     = U ''/* .hidden.js */'' @ LF # U ''y''" by code_simp
  show "fst (write_text (files example_world) [U ''r'', U ''.hidden.js''] (U ''/* .hidden.js */'' @ LF # U ''y'') UTF8)"
    by code_simp
qed

lemma hidden_rewritten:
  "fst (process_file [U ''r'', U ''.hidden.js''] example_root example_world) = Inr True"
proof -
  let ?p = "[U ''r'', U ''.hidden.js'']"
  let ?w1 = "emit (ReadText ?p UTF8) example_world"
  let ?final = "U ''/* .hidden.js */'' @ LF # U ''y''"
  have pf: "process_file ?p example_root example_world
     = write_back ?p example_root (U ''y'') UTF8 (clean_content (U ''y'') (U ''.js'')) ?final ?w1"
    using process_file_unfold[OF hidden_pieces(1,2) hidden_read hidden_pieces(3,4)]
    by (simp only: hidden_pieces(5))
  have ne: "?final \<noteq> U ''y''" by (simp add: U_def)
  obtain f where wt: "write_text (files example_world) ?p ?final UTF8 = (True, f)"
    using hidden_pieces(6) by (cases "write_text (files example_world) ?p ?final UTF8") auto
  show ?thesis unfolding pf
    using ne by (simp add: write_back_def write_file_content_def wt hidden_pieces(3))
qed


lemma write_back_True:
  assumes "fst (write_back p root content enc cleaned final w) = Inr True"
  shows "\<exists>bs d r wr. encode enc final = Some bs \<and> map_of (files w) p = Some (File d r wr)
        \<and> files (snd (write_back p root content enc cleaned final w))
             = update_node (files w) p (File bs r wr)"
proof -
  from assms have ne: "final \<noteq> content"
    by (auto simp: write_back_def split: if_splits)
  obtain b w' where wf: "write_file_content p final enc w = (b, w')" by force
  with assms ne have b: "b" 
    by (auto simp: write_back_def split: if_splits bool.splits option.splits)
  obtain b0 f where wt: "write_text (files w) p final enc = (b0, f)" by force
  with wf b have b0: "b0" and w': "files w' = f"
    by (auto simp: write_file_content_def split: bool.splits if_splits)
  from wt b0 obtain bs d r wr where e: "encode enc final = Some bs"
    and m: "map_of (files w) p = Some (File d r wr)" and f: "f = update_node (files w) p (File bs r wr)"
    by (auto simp: write_text_def split: option.splits node.splits if_splits)
  from assms wf b ne have "files (snd (write_back p root content enc cleaned final w)) = files w'"
    by (auto simp: write_back_def split: option.splits)
  with e m f w' show ?thesis by auto
qed

lemma write_back_rewrites:
  assumes "final \<noteq> content" "write_text (files w) p final enc = (True, f)"
    "relative_to p root = Some rel"
  shows "fst (write_back p root content enc cleaned final w) = Inr True"
    and "files (snd (write_back p root content enc cleaned final w)) = f"
  using assms by (simp_all add: write_back_def write_file_content_def)

lemma process_file_rewrites:
  assumes "lower (suffix_of p) = ext" "ext \<in> set TARGET_EXTENSIONS"
    "read_text (files w) p UTF8 = Inr content"
    "relative_to p root = Some rel" "HEADER_COMMENT_FORMAT ext = Some fmt"
    "format_template fmt (as_posix rel) @ LF # lstrip (clean_content content ext) = final"
    "final \<noteq> content" "write_text (files w) p final UTF8 = (True, f)"
  shows "fst (process_file p root w) = Inr True"
    and "files (snd (process_file p root w)) = f"
proof -
  let ?w1 = "emit (ReadText p UTF8) w"
  have rd: "read_file_content p w = (Some (content, UTF8), ?w1)"
    using assms(3) by (simp add: read_file_content_cases)
  have pf: "process_file p root w
      = write_back p root content UTF8 (clean_content content ext) final ?w1"
    using process_file_unfold[OF assms(1,2) rd assms(4,5)] assms(6) by simp
  have wt: "write_text (files ?w1) p final UTF8 = (True, f)" using assms(8) by simp
  show "fst (process_file p root w) = Inr True"
    unfolding pf by (rule write_back_rewrites(1)[OF assms(7) wt assms(4)])
  show "files (snd (process_file p root w)) = f"
    unfolding pf by (rule write_back_rewrites(2)[OF assms(7) wt assms(4)])
qed

lemma template_no_LF:
  "HEADER_COMMENT_FORMAT ext = Some fmt \<Longrightarrow> LF \<notin> set (fst fmt) \<and> LF \<notin> set (snd fmt)"
  by (auto simp: HEADER_COMMENT_FORMAT_def U_def LF_def split: if_splits)

lemma first_line_header: "LF \<notin> set h \<Longrightarrow> first_line (h @ LF # rest) = h"
  by (simp add: first_line_def takeWhile_append)

lemma lstrip_trimmed: "lstrip s = [] \<or> \<not> is_space (hd (lstrip s))"
  unfolding lstrip_def using hd_dropWhile[of is_space s] by blast

lemma kept_Cons_True: "kept (c # cs) (True # m) = c # kept cs m"
  by (simp add: kept_def)

lemma kept_deleted:
  assumes "n \<le> length s"
  shows "kept s (replicate n False @ m) = kept (drop n s) m"
proof -
  have "zip s (replicate n False @ m) = zip (take n s @ drop n s) (replicate n False @ m)" by simp
  also have "\<dots> = zip (take n s) (replicate n False) @ zip (drop n s) m"
    using assms by (intro zip_append) simp
  finally have z: "zip s (replicate n False @ m)
      = zip (take n s) (replicate n False) @ zip (drop n s) m" .
  have "filter snd (zip (take n s) (replicate n False)) = []"
    by (auto simp: filter_empty_conv dest: set_zip_rightD)
  with z show ?thesis by (simp add: kept_def)
qed

lemma re_sub_kept: "re_sub p prev s = kept s (re_sub_mask p prev s)"
proof (induction p prev s rule: re_sub.induct)
  case (1 p prev)
  show ?case by (simp add: kept_def)
next
  case (2 p prev c cs)
  show ?case
  proof (cases "match_at p prev (c # cs)")
    case None
    with 2 show ?thesis by (simp add: kept_Cons_True)
  next
    case (Some n)
    show ?thesis
    proof (cases "n = 0")
      case True
      with Some 2 show ?thesis by (simp add: kept_Cons_True)
    next
      case False
      from match_at_bound[OF Some] have "n \<le> length (c # cs)" .
      from kept_deleted[OF this] Some False 2(3)[OF Some False] show ?thesis by simp
    qed
  qed
qed

lemma length_re_sub_mask: "length (re_sub_mask p prev s) = length s"
proof (induction p prev s rule: re_sub_mask.induct)
  case (1 p prev)
  show ?case by simp
next
  case (2 p prev c cs)
  show ?case
  proof (cases "match_at p prev (c # cs)")
    case None
    with 2 show ?thesis by simp
  next
    case (Some n)
    show ?thesis
    proof (cases "n = 0")
      case True
      with Some 2 show ?thesis by simp
    next
      case False
      from match_at_bound[OF Some] have "n \<le> length (c # cs)" .
      with Some False 2(3)[OF Some False] show ?thesis by simp
    qed
  qed
qed

lemma mask_deleted:
  "i < length s \<Longrightarrow>
   match_at p (if i = 0 then prev else Some (s ! (i - 1))) (drop i s) = Some n \<Longrightarrow> 0 < n \<Longrightarrow>
   \<not> re_sub_mask p prev s ! i"
proof (induction p prev s arbitrary: i rule: re_sub_mask.induct)
  case (1 p prev)
  then show ?case by simp
next
  case (2 p prev c cs)
  show ?case
  proof (cases "match_at p prev (c # cs)")
    case None
    with "2.prems" obtain j where i: "i = Suc j" by (cases i) auto
    have "match_at p (if j = 0 then Some c else Some (cs ! (j - 1))) (drop j cs) = Some n"
      using "2.prems"(2) i by (cases j) auto
    from "2.IH"(1)[OF None _ this "2.prems"(3)] "2.prems"(1) i None show ?thesis by simp
  next
    case (Some m)
    show ?thesis
    proof (cases "m = 0")
      case True
      with Some "2.prems" obtain j where i: "i = Suc j" by (cases i) auto
      have "match_at p (if j = 0 then Some c else Some (cs ! (j - 1))) (drop j cs) = Some n"
        using "2.prems"(2) i by (cases j) auto
      from "2.IH"(2)[OF Some True _ this "2.prems"(3)] "2.prems"(1) i Some True
      show ?thesis by simp
    next
      case False
      from match_at_bound[OF Some] have mb: "m \<le> length (c # cs)" .
      have mk: "re_sub_mask p prev (c # cs)
          = replicate m False @ re_sub_mask p (Some ((c # cs) ! (m - 1))) (drop m (c # cs))"
        using Some False by simp
      show ?thesis
      proof (cases "i < m")
        case True
        then show ?thesis unfolding mk by (simp add: nth_append)
      next
        case ge: False
        let ?s' = "drop m (c # cs)"
        let ?j = "i - m"
        have j: "?j < length ?s'" using "2.prems"(1) ge by simp
        have d: "drop ?j ?s' = drop i (c # cs)" using ge by simp
        have pr: "(if ?j = 0 then Some ((c # cs) ! (m - 1)) else Some (?s' ! (?j - 1)))
            = (if i = 0 then prev else Some ((c # cs) ! (i - 1)))"
        proof (cases "?j = 0")
          case True
          with ge False have "i = m" "i \<noteq> 0" by auto
          then show ?thesis by simp
        next
          case nz: False
          then have "i \<noteq> 0" by auto
          moreover have "?s' ! (?j - 1) = (c # cs) ! (i - 1)"
            using nz ge mb "2.prems"(1) by (simp add: nth_drop del: nth_Cons_Suc drop_Suc_Cons) 
          ultimately show ?thesis using nz by simp
        qed
        have "match_at p (if ?j = 0 then Some ((c # cs) ! (m - 1)) else Some (?s' ! (?j - 1)))
                (drop ?j ?s') = Some n"
          unfolding pr d using "2.prems"(2) .
        from "2.IH"(3)[OF Some False j this "2.prems"(3)]
        show ?thesis unfolding mk using ge by (simp add: nth_append)
      qed
    qed
  qed
qed

lemma find_closer_exists: "find_closer cl (x @ cl @ y) \<noteq> None"
proof (induction x)
  case Nil
  show ?case
  proof (cases "cl @ y")
    case Nil
    then show ?thesis by simp
  next
    case (Cons c cs)
    have "prefix cl (cl @ y)" by simp
    then have "prefix cl (c # cs)" unfolding Cons .
    then show ?thesis using Cons by simp
  qed
next
  case (Cons a x)
  then show ?case by auto
qed

lemma delimited_span_matches:
  assumes "op \<noteq> []"
  shows "\<exists>n>0. match_at (Delimited op cl) prev (op @ mid @ cl @ b) = Some n"
proof -
  from find_closer_exists[of cl mid b] obtain j where "find_closer cl (mid @ cl @ b) = Some j"
    by auto
  with assms show ?thesis by simp
qed

lemma clean_content_block:
  "clean_content s (U ''.html'') = sub (Delimited (U ''<!--'') (U ''-->'')) s"
  "clean_content s (U ''.css'') = sub (Delimited (U ''/*'') (U ''*/'')) s"
  by (simp_all add: clean_content_def COMMENT_REGEX_def U_def)

section \<open>Markup and style kinds: block comments\<close>

text \<open>
  Claim C6, as amended. For the markup and style kinds \<open>clean_content\<close> is one pass of
  the kind's block-comment pattern, and its result is the input without the positions the
  pass deletes. Wherever a span that fully matches the pattern (opener, anything, line
  breaks included, closer) occurs in the input, the pass deletes the first character of
  that occurrence: no occurrence survives intact at its place.
\<close>

theorem block_comment_openers_deleted:
  "(ext = U ''.html'' \<and> op = U ''<!--'' \<and> cl = U ''-->''
    \<or> ext = U ''.css'' \<and> op = U ''/*'' \<and> cl = U ''*/'')
   \<longrightarrow> clean_content s ext = kept s (re_sub_mask (Delimited op cl) None s)
       \<and> (s = a @ op @ mid @ cl @ b \<longrightarrow> \<not> re_sub_mask (Delimited op cl) None s ! length a)"
proof -
  have del: "\<not> re_sub_mask (Delimited op cl) None (a @ op @ mid @ cl @ b) ! length a"
    if "op \<noteq> []" for op cl :: ustr
  proof -
    let ?s = "a @ op @ mid @ cl @ b"
    from delimited_span_matches[OF that, of cl _ mid b] obtain n where
      n: "0 < n" "match_at (Delimited op cl)
             (if length a = 0 then None else Some (?s ! (length a - 1))) (op @ mid @ cl @ b) = Some n"
      by blast
    have "length a < length ?s" using that by simp
    moreover have "drop (length a) ?s = op @ mid @ cl @ b" by simp
    ultimately show ?thesis using n mask_deleted[of "length a" ?s "Delimited op cl" None n]
      by simp
  qed
  have h: "U ''<!--'' \<noteq> []" and c: "U ''/*'' \<noteq> []" by (simp_all add: U_def)
  show ?thesis
    using del[OF h, of "U ''-->''"] del[OF c, of "U ''*/''"]
    by (auto simp: clean_content_block sub_def re_sub_kept)
qed

theorem block_comment_openers_deleted_witness:
  "(U ''.html'' = U ''.html'' \<and> U ''<!--'' = U ''<!--'' \<and> U ''-->'' = U ''-->''
    \<or> U ''.html'' = U ''.css'' \<and> U ''<!--'' = U ''/*'' \<and> U ''-->'' = U ''*/'')
   \<and> U ''a<!-- x -->b'' = U ''a'' @ U ''<!--'' @ U '' x '' @ U ''-->'' @ U ''b''
   \<and> clean_content (U ''a<!-- x -->b'') (U ''.html'')
       = kept (U ''a<!-- x -->b'') (re_sub_mask (Delimited (U ''<!--'') (U ''-->'')) None (U ''a<!-- x -->b''))
   \<and> \<not> re_sub_mask (Delimited (U ''<!--'') (U ''-->'')) None (U ''a<!-- x -->b'') ! length (U ''a'')"
proof -
  have s: "U ''a<!-- x -->b'' = U ''a'' @ U ''<!--'' @ U '' x '' @ U ''-->'' @ U ''b''"
    by (simp add: U_def)
  from block_comment_openers_deleted
         [of "U ''.html''" "U ''<!--''" "U ''-->''" "U ''a<!-- x -->b''" "U ''a''" "U '' x ''" "U ''b''"]
       s
  show ?thesis by blast
qed

text \<open>
  The claim as stated has every matching substring of the input absent from the output.
  A deleted span can join the text on its two sides into a comment: the output below is a
  substring of the input that matches the pattern.
\<close>

theorem block_comment_survives_counterexample:
  "sublist (U ''<!-- x -->'') (U ''<!-<!-- x -->- x -->'')
   \<and> match_at (Delimited (U ''<!--'') (U ''-->'')) None (U ''<!-- x -->'')
       = Some (length (U ''<!-- x -->''))
   \<and> clean_content (U ''<!-<!-- x -->- x -->'') (U ''.html'') = U ''<!-- x -->''
   \<and> sublist (U ''<!-- x -->'') (clean_content (U ''<!-<!-- x -->- x -->'') (U ''.html''))"
proof -
  have "U ''<!-<!-- x -->- x -->'' = U ''<!-'' @ U ''<!-- x -->'' @ U ''- x -->''"
    by (simp add: U_def)
  then have a: "sublist (U ''<!-- x -->'') (U ''<!-<!-- x -->- x -->'')"
    unfolding sublist_def by blast
  have b: "match_at (Delimited (U ''<!--'') (U ''-->'')) None (U ''<!-- x -->'')
       = Some (length (U ''<!-- x -->''))" by code_simp
  have c: "clean_content (U ''<!-<!-- x -->- x -->'') (U ''.html'') = U ''<!-- x -->''"
    by code_simp
  from a b c show ?thesis by simp
qed













section \<open>Idempotence\<close>


lemma settled_facts:
  "U ''.js'' \<in> set TARGET_EXTENSIONS"
  "lower (suffix_of [U ''r'', U ''a.js'']) = U ''.js''"
  "relative_to [U ''r'', U ''a.js''] example_root = Some [U ''a.js'']"
  "HEADER_COMMENT_FORMAT (U ''.js'') = Some (U ''/* '', U '' */'')"
  "COMMENT_REGEX (U ''.js'') = Some (Delimited (U ''/*'') (U ''*/'') # [LineTail])"
  "read_file_content [U ''r'', U ''a.js''] settled_world
     = (Some (format_template (U ''/* '', U '' */'') (as_posix [U ''a.js'']) @ LF # U ''foo();'', UTF8),
        emit (ReadText [U ''r'', U ''a.js''] UTF8) settled_world)"
  "list_all (\<lambda>p. no_match p (U ''foo();'')) (Delimited (U ''/*'') (U ''*/'') # [LineTail])"
  "\<not> sublist (U ''*/'') (as_posix [U ''a.js''])"
  "lstrip (U ''foo();'') = U ''foo();''"
  "LF \<notin> set (as_posix [U ''a.js''])"
proof -
  show "U ''.js'' \<in> set TARGET_EXTENSIONS" by code_simp
  show "lower (suffix_of [U ''r'', U ''a.js'']) = U ''.js''" by code_simp
  show "relative_to [U ''r'', U ''a.js''] example_root = Some [U ''a.js'']" by code_simp
  show "HEADER_COMMENT_FORMAT (U ''.js'') = Some (U ''/* '', U '' */'')" by code_simp
  show "COMMENT_REGEX (U ''.js'') = Some (Delimited (U ''/*'') (U ''*/'') # [LineTail])" by code_simp
  have "read_text (files settled_world) [U ''r'', U ''a.js''] UTF8
      = Inr (format_template (U ''/* '', U '' */'') (as_posix [U ''a.js'']) @ LF # U ''foo();'')"
    by code_simp
  then show "read_file_content [U ''r'', U ''a.js''] settled_world
     = (Some (format_template (U ''/* '', U '' */'') (as_posix [U ''a.js'']) @ LF # U ''foo();'', UTF8),
        emit (ReadText [U ''r'', U ''a.js''] UTF8) settled_world)"
    by (simp add: read_file_content_cases)
  show "list_all (\<lambda>p. no_match p (U ''foo();'')) (Delimited (U ''/*'') (U ''*/'') # [LineTail])"
    by code_simp
  show "\<not> sublist (U ''*/'') (as_posix [U ''a.js''])" by code_simp
  show "lstrip (U ''foo();'') = U ''foo();''" by code_simp
  show "LF \<notin> set (as_posix [U ''a.js''])" by code_simp
qed





lemma newline_facts:
  "lower (suffix_of [U ''r'', U ''a\<newline>b.js'']) = U ''.js''"
  "relative_to [U ''r'', U ''a\<newline>b.js''] example_root = Some [U ''a\<newline>b.js'']"
  "read_text (files newline_world) [U ''r'', U ''a\<newline>b.js''] UTF8 = Inr (U ''x'')"
  "format_template (U ''/* '', U '' */'') (as_posix [U ''a\<newline>b.js''])
     @ LF # lstrip (clean_content (U ''x'') (U ''.js''))
   = U ''/* a\<newline>b.js */\<newline>x''"
  "U ''/* a\<newline>b.js */\<newline>x'' \<noteq> U ''x''"
  "write_text (files newline_world) [U ''r'', U ''a\<newline>b.js''] (U ''/* a\<newline>b.js */\<newline>x'') UTF8
     = (True, [([U ''r''], Dir),
               ([U ''r'', U ''a\<newline>b.js''], File (B ''/* a\<newline>b.js */\<newline>x'') True True)])"
  "format_template (U ''/* '', U '' */'') (as_posix [U ''a\<newline>b.js'']) = U ''/* a\<newline>b.js */''"
  "first_line (U ''/* a\<newline>b.js */\<newline>x'') = U ''/* a''"
proof -
  show "lower (suffix_of [U ''r'', U ''a\<newline>b.js'']) = U ''.js''" by code_simp
  show "relative_to [U ''r'', U ''a\<newline>b.js''] example_root = Some [U ''a\<newline>b.js'']"
    by code_simp
  show "read_text (files newline_world) [U ''r'', U ''a\<newline>b.js''] UTF8 = Inr (U ''x'')"
    by code_simp
  show "format_template (U ''/* '', U '' */'') (as_posix [U ''a\<newline>b.js''])
     @ LF # lstrip (clean_content (U ''x'') (U ''.js''))
   = U ''/* a\<newline>b.js */\<newline>x''" by code_simp
  show "U ''/* a\<newline>b.js */\<newline>x'' \<noteq> U ''x''" by code_simp
  show "write_text (files newline_world) [U ''r'', U ''a\<newline>b.js''] (U ''/* a\<newline>b.js */\<newline>x'') UTF8
     = (True, [([U ''r''], Dir),
               ([U ''r'', U ''a\<newline>b.js''], File (B ''/* a\<newline>b.js */\<newline>x'') True True)])"
    by code_simp
  show "format_template (U ''/* '', U '' */'') (as_posix [U ''a\<newline>b.js'']) = U ''/* a\<newline>b.js */''"
    by code_simp
  show "first_line (U ''/* a\<newline>b.js */\<newline>x'') = U ''/* a''" by code_simp
qed

text \<open>
  The claim as stated has line 1 equal to the header for every file. A file name may
  contain a line feed; the header then spans two lines and line 1 is its first part.
\<close>

theorem header_with_line_feed_counterexample:
  "fst (process_file [U ''r'', U ''a\<newline>b.js''] example_root newline_world) = Inr True
   \<and> files (snd (process_file [U ''r'', U ''a\<newline>b.js''] example_root newline_world))
       = [([U ''r''], Dir),
          ([U ''r'', U ''a\<newline>b.js''], File (B ''/* a\<newline>b.js */\<newline>x'') True True)]
   \<and> first_line (U ''/* a\<newline>b.js */\<newline>x'') = U ''/* a''
   \<and> format_template (U ''/* '', U '' */'') (as_posix [U ''a\<newline>b.js'']) = U ''/* a\<newline>b.js */''
   \<and> U ''/* a'' \<noteq> U ''/* a\<newline>b.js */''"
proof -
  have a: "fst (process_file [U ''r'', U ''a\<newline>b.js''] example_root newline_world) = Inr True"
    by (rule process_file_rewrites(1)[OF newline_facts(1) settled_facts(1) newline_facts(3,2)
          settled_facts(4) newline_facts(4,5,6)])
  have b: "files (snd (process_file [U ''r'', U ''a\<newline>b.js''] example_root newline_world))
       = [([U ''r''], Dir),
          ([U ''r'', U ''a\<newline>b.js''], File (B ''/* a\<newline>b.js */\<newline>x'') True True)]"
    by (rule process_file_rewrites(2)[OF newline_facts(1) settled_facts(1) newline_facts(3,2)
          settled_facts(4) newline_facts(4,5,6)])
  have c: "U ''/* a'' \<noteq> U ''/* a\<newline>b.js */''" by (simp add: U_def)
  from a b c newline_facts(7,8) show ?thesis by simp
qed

section \<open>The header builder\<close>

text \<open>
  Claim C2, as amended. \<open>create_header\<close> returns \<open>None\<close> if and only if the extension
  has no registered template, that is, if and only if it is not a target extension;
  whether the path lies under the root does not matter for that. With a template and a
  path under the root the result is the template instantiated with the slash-separated
  relative path, and nothing is printed. With a template and a path that is not under
  the root, the error is reported on stderr and the result is the template instantiated
  with the file name followed by \<open>(relative path error)\<close>. Without a template the
  result is \<open>None\<close> after one line on stderr: the warning that no format is defined
  when the path is under the root, the relative-path error when it is not.
\<close>

theorem create_header_none_iff_no_template:
  "(fst (create_header file_path root_dir ext w) = None \<longleftrightarrow> HEADER_COMMENT_FORMAT ext = None)
   \<and> (HEADER_COMMENT_FORMAT ext = None \<longleftrightarrow> ext \<notin> set TARGET_EXTENSIONS)
   \<and> (HEADER_COMMENT_FORMAT ext = Some formatter \<and> relative_to file_path root_dir = Some rel
        \<longrightarrow> create_header file_path root_dir ext w
             = (Some (format_template formatter (as_posix rel)), w))
   \<and> (HEADER_COMMENT_FORMAT ext = Some formatter \<and> relative_to file_path root_dir = None
        \<longrightarrow> create_header file_path root_dir ext w
             = (Some (format_template formatter (name file_path @ U '' (relative path error)'')),
                w\<lparr>log := log w @ [Stderr (RelativePathError file_path root_dir)]\<rparr>))
   \<and> (HEADER_COMMENT_FORMAT ext = None \<and> relative_to file_path root_dir = Some rel
        \<longrightarrow> create_header file_path root_dir ext w
             = (None, w\<lparr>log := log w @ [Stderr (NoHeaderFormat ext)]\<rparr>))
   \<and> (HEADER_COMMENT_FORMAT ext = None \<and> relative_to file_path root_dir = None
        \<longrightarrow> create_header file_path root_dir ext w
             = (None, w\<lparr>log := log w @ [Stderr (RelativePathError file_path root_dir)]\<rparr>))"
  by (auto simp: create_header_def emit_def HEADER_COMMENT_FORMAT_def TARGET_EXTENSIONS_def
      split: option.splits)

text \<open>
  The claim as stated gives \<open>None\<close> for a path that cannot be expressed relative to the
  root. Such a path with a script extension gets a header nevertheless.
\<close>

theorem create_header_outside_root_counterexample:
  "relative_to [U ''elsewhere'', U ''a.js''] [U ''r''] = None
   \<and> fst (create_header [U ''elsewhere'', U ''a.js''] [U ''r''] (U ''.js'') example_world)
       = Some (U ''/* a.js (relative path error) */'')"
  by code_simp

lemma create_header_facts:
  "HEADER_COMMENT_FORMAT (U ''.js'') = Some (U ''/* '', U '' */'')"
  "relative_to [U ''r'', U ''src'', U ''a.js''] [U ''r''] = Some [U ''src'', U ''a.js'']"
  "relative_to [U ''elsewhere'', U ''a.js''] [U ''r''] = None"
  "HEADER_COMMENT_FORMAT (U ''.txt'') = None"
  "relative_to [U ''r'', U ''notes.txt''] [U ''r''] = Some [U ''notes.txt'']"
  "relative_to [U ''elsewhere'', U ''notes.txt''] [U ''r''] = None"
  by code_simp+

theorem create_header_none_iff_no_template_witness:
  "HEADER_COMMENT_FORMAT (U ''.js'') = Some (U ''/* '', U '' */'')
   \<and> relative_to [U ''r'', U ''src'', U ''a.js''] [U ''r''] = Some [U ''src'', U ''a.js'']
   \<and> create_header [U ''r'', U ''src'', U ''a.js''] [U ''r''] (U ''.js'') example_world
       = (Some (format_template (U ''/* '', U '' */'') (as_posix [U ''src'', U ''a.js''])), example_world)
   \<and> relative_to [U ''elsewhere'', U ''a.js''] [U ''r''] = None
   \<and> create_header [U ''elsewhere'', U ''a.js''] [U ''r''] (U ''.js'') example_world
       = (Some (format_template (U ''/* '', U '' */'')
                 (name [U ''elsewhere'', U ''a.js''] @ U '' (relative path error)'')),
          example_world\<lparr>log := log example_world
             @ [Stderr (RelativePathError [U ''elsewhere'', U ''a.js''] [U ''r''])]\<rparr>)
   \<and> HEADER_COMMENT_FORMAT (U ''.txt'') = None
   \<and> relative_to [U ''r'', U ''notes.txt''] [U ''r''] = Some [U ''notes.txt'']
   \<and> create_header [U ''r'', U ''notes.txt''] [U ''r''] (U ''.txt'') example_world
       = (None, example_world\<lparr>log := log example_world @ [Stderr (NoHeaderFormat (U ''.txt''))]\<rparr>)
   \<and> relative_to [U ''elsewhere'', U ''notes.txt''] [U ''r''] = None
   \<and> create_header [U ''elsewhere'', U ''notes.txt''] [U ''r''] (U ''.txt'') example_world
       = (None, example_world\<lparr>log := log example_world
             @ [Stderr (RelativePathError [U ''elsewhere'', U ''notes.txt''] [U ''r''])]\<rparr>)"
  using create_header_none_iff_no_template
         [of "[U ''r'', U ''src'', U ''a.js'']" "[U ''r'']" "U ''.js''" example_world
             "(U ''/* '', U '' */'')" "[U ''src'', U ''a.js'']"]
       create_header_none_iff_no_template
         [of "[U ''elsewhere'', U ''a.js'']" "[U ''r'']" "U ''.js''" example_world
             "(U ''/* '', U '' */'')"]
       create_header_none_iff_no_template
         [of "[U ''r'', U ''notes.txt'']" "[U ''r'']" "U ''.txt''" example_world _ "[U ''notes.txt'']"]
       create_header_none_iff_no_template
         [of "[U ''elsewhere'', U ''notes.txt'']" "[U ''r'']" "U ''.txt''" example_world]
       create_header_facts
  by blast

end
